theory Spec2Isabelle
  imports Main
begin

section \<open>JavaScript values\<close>

text \<open>
  The program under study is \<^verbatim>\<open>src/tasks/task.js\<close>: the class \<^verbatim>\<open>Task\<close> of a build-task
  registration layer. Its methods test arguments and configuration entries for
  truthiness (\<^verbatim>\<open>if (regex)\<close>, \<^verbatim>\<open>category || 'default'\<close>, \<^verbatim>\<open>! Elixir.config.sourcemaps\<close>),
  so the values that reach those tests are modelled as a datatype of JavaScript values.
  Functions of the program (task definitions, subclass hooks) are values too; a function
  is represented by an identifier and given its behaviour by an environment (see \<open>env\<close>
  below).
\<close>

type_synonym fn = nat

datatype jsval =
    JUndefined
  | JNull
  | JBool bool
  | JNum int
  | JStr string
  | JArr "jsval list"
  | JFun fn

text \<open>ToBoolean: \<^verbatim>\<open>undefined\<close>, \<^verbatim>\<open>null\<close>, \<^verbatim>\<open>false\<close>, \<^verbatim>\<open>0\<close> and \<^verbatim>\<open>''\<close> are falsy; arrays
  (also the empty one) and functions are truthy.\<close>

fun truthy :: "jsval \<Rightarrow> bool" where
  "truthy JUndefined = False"
| "truthy JNull = False"
| "truthy (JBool b) = b"
| "truthy (JNum n) = (n \<noteq> 0)"
| "truthy (JStr s) = (s \<noteq> [])"
| "truthy (JArr vs) = True"
| "truthy (JFun f) = True"

text \<open>What a call can throw: the \<^verbatim>\<open>TypeError\<close> of the language (a call of something
  that is not a function, a method call on \<^verbatim>\<open>undefined\<close>), or a value thrown by a library or
  by a function of the program (for an \<^verbatim>\<open>Error\<close> object, its message).\<close>

datatype error = TypeError | Thrown jsval

text \<open>\<^verbatim>\<open>a || b\<close>: the left operand when it is truthy, the right one otherwise.\<close>

definition js_or :: "jsval \<Rightarrow> jsval \<Rightarrow> jsval" where
  "js_or a b = (if truthy a then a else b)"

text \<open>\<^verbatim>\<open>xs.concat(v)\<close>: a new array; an array argument is spread by one level, any other
  value is appended as one element.\<close>

fun array_concat :: "jsval list \<Rightarrow> jsval \<Rightarrow> jsval list" where
  "array_concat xs (JArr ys) = xs @ ys"
| "array_concat xs v = xs @ [v]"

text \<open>\<^verbatim>\<open>s.replace(pat, rep)\<close> with a string pattern: the first occurrence of \<open>pat\<close> in \<open>s\<close>,
  wherever it is, is replaced; a string with no occurrence is returned as it is.\<close>

fun replace :: "string \<Rightarrow> string \<Rightarrow> string \<Rightarrow> string" where
  "replace pat rep [] = (if pat = [] then rep else [])"
| "replace pat rep (c # cs) =
     (if take (length pat) (c # cs) = pat then rep @ drop (length pat) (c # cs)
      else c # replace pat rep cs)"

text \<open>Decimal rendering of an array index, as a template literal prints a number.\<close>

definition digit :: "nat \<Rightarrow> char" where
  "digit d = ''0123456789'' ! d"

fun show_nat :: "nat \<Rightarrow> string" where
  "show_nat n = (if n < 10 then [digit n] else show_nat (n div 10) @ [digit (n mod 10)])"

declare show_nat.simps [simp del]

text \<open>\<^verbatim>\<open>xs.join(sep)\<close> on an array of strings.\<close>

fun join :: "string \<Rightarrow> string list \<Rightarrow> string" where
  "join sep [] = []"
| "join sep [x] = x"
| "join sep (x # y # zs) = x @ sep @ join sep (y # zs)"


section \<open>Tasks and the process-wide state\<close>

text \<open>A \<^verbatim>\<open>GulpPaths\<close> object: the source and the output of a task. Only its two
  properties \<^verbatim>\<open>src\<close> and \<^verbatim>\<open>output\<close> are read by \<^verbatim>\<open>Task\<close>.\<close>

record path_desc =
  path :: string
  pname :: string
  baseDir :: string

record gulp_paths =
  gp_src :: path_desc
  gp_output :: path_desc

text \<open>
  The fields of a \<^verbatim>\<open>Task\<close> object. \<open>paths\<close>, \<open>src\<close> and \<open>output'\<close> (the field
  \<^verbatim>\<open>output\<close>) are absent (\<open>None\<close>) when the constructor got no paths; \<open>definition'\<close>
  (the field \<^verbatim>\<open>definition\<close>) and
  \<open>category\<close> are \<^verbatim>\<open>undefined\<close> until \<^verbatim>\<open>describe\<close> and \<^verbatim>\<open>watch\<close> set them.
  \<open>gulpTask\<close> and \<open>registerWatchers\<close> are the two methods that the class itself does not
  define and that the constructor and \<^verbatim>\<open>run\<close> look up on the instance: a subclass may
  provide them, and they are \<^verbatim>\<open>undefined\<close> on a plain \<^verbatim>\<open>Task\<close>.
\<close>

record task =
  name :: string
  watchers :: "jsval list"
  isComplete :: bool
  steps :: "string list"
  paths :: "gulp_paths option"
  src :: "path_desc option"
  output' :: "path_desc option"
  definition' :: jsval
  category :: jsval
  gulpTask :: jsval
  registerWatchers :: jsval

type_synonym tid = nat

text \<open>The settings of \<^verbatim>\<open>Elixir.config\<close> that \<^verbatim>\<open>Task\<close> reads.\<close>

record config =
  sourcemaps :: jsval
  css_autoprefix_enabled :: jsval
  css_autoprefix_options :: jsval

text \<open>The arguments of a call of a function value: none (a hook), or
  \<^verbatim>\<open>(Elixir.Plugins, Elixir.config)\<close> (a task definition).\<close>

type_synonym plugins = nat

datatype args = Args0 | Args2 plugins config

text \<open>What the program does to its collaborators, in the order it does it: calls of
  function values, lines handed to the logger, registrations with gulp.\<close>

datatype event =
    Invoke fn tid args
  | LogTask tid string
  | LogStatus jsval
  | GulpTask string

text \<open>The closure that \<^verbatim>\<open>toGulp\<close> hands to gulp captures the task's name only.\<close>

datatype closure = GulpClosure string

text \<open>
  The state of the process: the store of \<^verbatim>\<open>Task\<close> objects (a task is referred to by its
  address, so that the registry and a caller share one object), the globals of
  \<^verbatim>\<open>Elixir\<close>, the task table of gulp, the command-line arguments \<^verbatim>\<open>gutils.env._\<close>, and the
  trace of events. The task table \<^verbatim>\<open>gulp.tasks\<close> is a plain object: \<open>gulp_tasks\<close> are its own
  properties, \<open>gulp_tasks_proto\<close> is what an assignment to its key \<^verbatim>\<open>'__proto__'\<close> has put in
  the place of its prototype (nothing, at the start).
\<close>

record world =
  heap :: "tid \<Rightarrow> task"
  next_tid :: tid
  Elixir_tasks :: "tid list"
  Elixir_config :: config
  Elixir_Plugins :: plugins
  Elixir_inProduction :: jsval
  Elixir_isRunningAllTasks :: jsval
  gulp_tasks :: "string \<rightharpoonup> closure"
  gulp_tasks_proto :: "closure option"
  gutils_env :: "string list"
  trace :: "event list"

text \<open>Assignment to fields of the object \<open>this\<close>.\<close>

definition update :: "tid \<Rightarrow> (task \<Rightarrow> task) \<Rightarrow> world \<Rightarrow> world" where
  "update this f w = w\<lparr>heap := (heap w)(this := f (heap w this))\<rparr>"

definition emit :: "event \<Rightarrow> world \<Rightarrow> world" where
  "emit e w = w\<lparr>trace := trace w @ [e]\<rparr>"


section \<open>The methods of Task that touch the task only\<close>

text \<open>\<^verbatim>\<open>watch(regex, category)\<close>, lines 78-86.\<close>

definition watch :: "jsval \<Rightarrow> jsval \<Rightarrow> tid \<Rightarrow> world \<Rightarrow> tid \<times> world" where
  "watch regex cat this w =
     (let w1 = (if truthy regex
                then update this (\<lambda>t. t\<lparr>watchers := array_concat (watchers t) regex\<rparr>) w
                else w);
          w2 = update this (\<lambda>t. t\<lparr>category := js_or cat (JStr ''default'')\<rparr>) w1
      in (this, w2))"

text \<open>\<^verbatim>\<open>hasWatchers()\<close>, lines 92-94.\<close>

definition hasWatchers :: "tid \<Rightarrow> world \<Rightarrow> bool \<times> world" where
  "hasWatchers this w = (length (watchers (heap w this)) > 0, w)"

text \<open>\<^verbatim>\<open>ignore(path)\<close>, lines 103-107.\<close>

definition ignore :: "string \<Rightarrow> tid \<Rightarrow> world \<Rightarrow> tid \<times> world" where
  "ignore p this w =
     (this,
      update this
        (\<lambda>t. t\<lparr>watchers := watchers t @ [JStr (replace ''././'' ''./'' (''!./'' @ p))]\<rparr>) w)"

text \<open>\<^verbatim>\<open>recordStep(message)\<close>, lines 266-268.\<close>

definition recordStep :: "string \<Rightarrow> tid \<Rightarrow> world \<Rightarrow> world" where
  "recordStep message this w = update this (\<lambda>t. t\<lparr>steps := steps t @ [message]\<rparr>) w"

text \<open>\<^verbatim>\<open>summary()\<close>, lines 131-133: \<^verbatim>\<open>map\<close> gives the callback the element and its
  0-based index, and the callback prints the incremented index.\<close>

definition summary :: "tid \<Rightarrow> world \<Rightarrow> string \<times> world" where
  "summary this w =
     (join [CHR 0x0A]
        (map (\<lambda>(index, step). show_nat (index + 1) @ ''. '' @ step)
           (enumerate 0 (steps (heap w this)))),
      w)"


section \<open>Collaborators that are not part of the class\<close>

text \<open>
  Modelled from the spec: the task registry \<^verbatim>\<open>Elixir.tasks\<close>, whose class is not among the
  sources. The spec describes it as "an ordered collection of declared tasks, queryable
  by name, supporting run all with a given name and find first incomplete with a given
  name lookups": \<^verbatim>\<open>push\<close> appends at the end, \<^verbatim>\<open>byName\<close> keeps the tasks of that name in
  their order, \<^verbatim>\<open>findIncompleteByName\<close> keeps those of them that are not complete.
\<close>

definition Elixir_tasks_push :: "tid \<Rightarrow> world \<Rightarrow> world" where
  "Elixir_tasks_push t w = w\<lparr>Elixir_tasks := Elixir_tasks w @ [t]\<rparr>"

definition byName :: "string \<Rightarrow> world \<Rightarrow> tid list" where
  "byName n w = filter (\<lambda>t. name (heap w t) = n) (Elixir_tasks w)"

definition findIncompleteByName :: "string \<Rightarrow> world \<Rightarrow> tid list" where
  "findIncompleteByName n w = filter (\<lambda>t. \<not> isComplete (heap w t)) (byName n w)"

text \<open>
  Modelled from the spec: the logger \<^verbatim>\<open>Elixir.log\<close>, which is not among the sources. By the
  spec, \<^verbatim>\<open>run\<close> "logs a summary of recorded steps": \<^verbatim>\<open>Elixir.log.task(task)\<close> is the event
  \<open>LogTask\<close> with the task and its summary at that moment, \<^verbatim>\<open>Elixir.log.status(message)\<close>
  the event \<open>LogStatus\<close>.
\<close>

definition Elixir_log_task :: "tid \<Rightarrow> world \<Rightarrow> world" where
  "Elixir_log_task t w = emit (LogTask t (fst (summary t w))) w"

definition Elixir_log_status :: "jsval \<Rightarrow> world \<Rightarrow> jsval \<times> world" where
  "Elixir_log_status message w = (JUndefined, emit (LogStatus message) w)"

text \<open>
  The streams that the pipeline helpers return are objects of external libraries; the
  model keeps which library call made them. \<open>PassThrough\<close> is \<^verbatim>\<open>map(function () {})\<close> of
  vinyl-map, which hands every file on as it is.
\<close>

datatype stream =
    PassThrough
  | SourcemapsInit
  | SourcemapsWrite string
  | Autoprefixer jsval
  | Minifier "path_desc option"

text \<open>
  gulp keeps its tasks in the plain object \<^verbatim>\<open>gulp.tasks\<close>, keyed by name.
  \<^verbatim>\<open>gulp.task(name, fn)\<close> refuses an empty name (\<^verbatim>\<open>if (!name) throw new Error(...)\<close>) and
  otherwise assigns \<^verbatim>\<open>this.tasks[name]\<close>; the event \<open>GulpTask\<close> records a call that gulp
  accepted. For every key but \<^verbatim>\<open>'__proto__'\<close> the assignment makes an own property of the
  object; for \<^verbatim>\<open>'__proto__'\<close> it replaces the prototype of the object and makes no own
  property. \<^verbatim>\<open>_.has(gulp.tasks, name)\<close> asks whether the object has the own property.
\<close>

definition gulp_task :: "string \<Rightarrow> closure \<Rightarrow> world \<Rightarrow> error + world" where
  "gulp_task n c w =
     (if n = [] then Inl (Thrown (JStr ''Task requires a name''))
      else if n = ''__proto__'' then Inr (emit (GulpTask n) (w\<lparr>gulp_tasks_proto := Some c\<rparr>))
      else Inr (emit (GulpTask n) (w\<lparr>gulp_tasks := (gulp_tasks w)(n \<mapsto> c)\<rparr>)))"

definition has :: "(string \<rightharpoonup> closure) \<Rightarrow> string \<Rightarrow> bool" where
  "has obj key = (obj key \<noteq> None)"

text \<open>
  \<^verbatim>\<open>_.intersection(array, other)\<close> of underscore: the items of \<open>array\<close> that \<open>other\<close> contains,
  each once, in the order of their first occurrence. The loop of the library carries the
  result along.
\<close>

fun intersection_loop :: "'a list \<Rightarrow> 'a list \<Rightarrow> 'a list \<Rightarrow> 'a list" where
  "intersection_loop [] other result = result"
| "intersection_loop (item # rest) other result =
     (if item \<in> set result then intersection_loop rest other result
      else if item \<in> set other then intersection_loop rest other (result @ [item])
      else intersection_loop rest other result)"

definition intersection :: "'a list \<Rightarrow> 'a list \<Rightarrow> 'a list" where
  "intersection array other = intersection_loop array other []"


section \<open>Function values\<close>

text \<open>
  A call of a function value may do anything to the state, return a value, or throw. The
  environment gives each function identifier that behaviour, for a receiver \<open>this\<close> and
  arguments. Calling a value that is not a function throws a \<^verbatim>\<open>TypeError\<close>. Each call is
  recorded by the event \<open>Invoke\<close> before the body of the function runs.
\<close>

type_synonym env = "fn \<Rightarrow> tid \<Rightarrow> args \<Rightarrow> world \<Rightarrow> error + (jsval \<times> world)"

definition call :: "env \<Rightarrow> jsval \<Rightarrow> tid \<Rightarrow> args \<Rightarrow> world \<Rightarrow> error + (jsval \<times> world)" where
  "call D f this as w =
     (case f of
        JFun g \<Rightarrow> D g this as (emit (Invoke g this as) w)
      | _ \<Rightarrow> Inl TypeError)"


section \<open>The methods of Task that touch the globals\<close>

text \<open>\<^verbatim>\<open>register()\<close>, lines 64-68.\<close>

definition register :: "tid \<Rightarrow> world \<Rightarrow> tid \<times> world" where
  "register this w = (this, Elixir_tasks_push this w)"

text \<open>\<^verbatim>\<open>describe(definition)\<close>, lines 52-56.\<close>

definition describe :: "jsval \<Rightarrow> tid \<Rightarrow> world \<Rightarrow> tid \<times> world" where
  "describe d this w = register this (update this (\<lambda>t. t\<lparr>definition' := d\<rparr>) w)"

text \<open>
  \<^verbatim>\<open>new C(name, description, paths)\<close>, lines 15-35, for a class \<open>C\<close> that is \<^verbatim>\<open>Task\<close> or
  extends it: a class is given by the two methods that \<^verbatim>\<open>Task\<close> looks up and does not
  define. The new object gets the next free address.
\<close>

record task_class =
  cls_gulpTask :: jsval
  cls_registerWatchers :: jsval

definition Task :: task_class where
  "Task = \<lparr>cls_gulpTask = JUndefined, cls_registerWatchers = JUndefined\<rparr>"

definition constructor ::
  "task_class \<Rightarrow> string \<Rightarrow> jsval \<Rightarrow> gulp_paths option \<Rightarrow> world \<Rightarrow> tid \<times> world" where
  "constructor cls nm description ps w =
     (let this = next_tid w;
          t0 = \<lparr>name = nm, watchers = [], isComplete = False, steps = [],
                paths = None, src = None, output' = None,
                definition' = JUndefined, category = JUndefined,
                gulpTask = cls_gulpTask cls, registerWatchers = cls_registerWatchers cls\<rparr>;
          t1 = (case ps of
                  None \<Rightarrow> t0
                | Some p \<Rightarrow> t0\<lparr>paths := Some p, src := Some (gp_src p),
                                output' := Some (gp_output p)\<rparr>);
          w1 = w\<lparr>heap := (heap w)(this := t1), next_tid := Suc this\<rparr>
      in if truthy (gulpTask (heap w1 this)) then describe (gulpTask (heap w1 this)) this w1
         else if truthy description then describe description this w1
         else (this, w1))"

text \<open>\<^verbatim>\<open>log(message)\<close>, lines 248-258.\<close>

definition log :: "jsval \<Rightarrow> tid \<Rightarrow> world \<Rightarrow> jsval \<times> world" where
  "log message this w =
     (if truthy message then Elixir_log_status message w
      else if \<not> truthy (Elixir_isRunningAllTasks w) then (JUndefined, Elixir_log_task this w)
      else (JUndefined, w))"

text \<open>Line 114, the first statement of \<^verbatim>\<open>run\<close>:
  \<^verbatim>\<open>this.registerWatchers && this.registerWatchers()\<close>.\<close>

definition registerWatchers_if_any :: "env \<Rightarrow> tid \<Rightarrow> world \<Rightarrow> error + (jsval \<times> world)" where
  "registerWatchers_if_any D this w =
     (if truthy (registerWatchers (heap w this))
      then call D (registerWatchers (heap w this)) this Args0 w
      else Inr (registerWatchers (heap w this), w))"

text \<open>\<^verbatim>\<open>run()\<close>, lines 113-123. An exception of the hook or of the definition leaves
  \<^verbatim>\<open>run\<close> at once.\<close>

definition run :: "env \<Rightarrow> tid \<Rightarrow> world \<Rightarrow> error + (jsval \<times> world)" where
  "run D this w =
     (case registerWatchers_if_any D this w of
        Inl e \<Rightarrow> Inl e
      | Inr (_, w1) \<Rightarrow>
          (case call D (definition' (heap w1 this)) this
                  (Args2 (Elixir_Plugins w1) (Elixir_config w1)) w1 of
             Inl e \<Rightarrow> Inl e
           | Inr (definition, w2) \<Rightarrow>
               (let w3 = update this (\<lambda>t. t\<lparr>isComplete := True\<rparr>) w2;
                    w4 = snd (log JUndefined this w3)
                in Inr (definition, w4))))"

text \<open>\<^verbatim>\<open>initSourceMaps()\<close>, lines 139-145.\<close>

definition initSourceMaps :: "tid \<Rightarrow> world \<Rightarrow> stream \<times> world" where
  "initSourceMaps this w =
     (if \<not> truthy (sourcemaps (Elixir_config w)) then (PassThrough, w)
      else (SourcemapsInit, w))"

text \<open>\<^verbatim>\<open>writeSourceMaps()\<close>, lines 151-160.\<close>

definition writeSourceMaps :: "tid \<Rightarrow> world \<Rightarrow> stream \<times> world" where
  "writeSourceMaps this w =
     (if \<not> truthy (sourcemaps (Elixir_config w)) then (PassThrough, w)
      else (let w1 = recordStep ''Writing Source Maps'' this w
            in (SourcemapsWrite ''.'', w1)))"

text \<open>\<^verbatim>\<open>autoPrefix()\<close>, lines 166-176.\<close>

definition autoPrefix :: "tid \<Rightarrow> world \<Rightarrow> stream \<times> world" where
  "autoPrefix this w =
     (if \<not> truthy (css_autoprefix_enabled (Elixir_config w)) then (PassThrough, w)
      else (let w1 = recordStep ''Autoprefixing CSS'' this w
            in (Autoprefixer (css_autoprefix_options (Elixir_config w1)), w1)))"

text \<open>\<^verbatim>\<open>minify()\<close>, lines 182-190.\<close>

definition minify :: "tid \<Rightarrow> world \<Rightarrow> stream \<times> world" where
  "minify this w =
     (if \<not> truthy (Elixir_inProduction w) then (PassThrough, w)
      else (let w1 = recordStep ''Applying Minification'' this w
            in (Minifier (output' (heap w1 this)), w1)))"

text \<open>\<^verbatim>\<open>shouldRunAllTasksWithName(name)\<close>, lines 302-304: a length, used as a condition.\<close>

definition shouldRunAllTasksWithName :: "string \<Rightarrow> world \<Rightarrow> nat" where
  "shouldRunAllTasksWithName n w =
     length (intersection (gutils_env w) [n, ''watch'', ''tdd''])"

text \<open>\<^verbatim>\<open>tasks.forEach(task => task.run())\<close>, line 286: the tasks run in the order of the
  array, each on the state the one before left; an exception ends the loop.\<close>

fun forEach_run :: "env \<Rightarrow> tid list \<Rightarrow> world \<Rightarrow> error + (jsval \<times> world)" where
  "forEach_run D [] w = Inr (JUndefined, w)"
| "forEach_run D (t # ts) w =
     (case run D t w of
        Inl e \<Rightarrow> Inl e
      | Inr (_, w') \<Rightarrow> forEach_run D ts w')"

text \<open>A call of the closure of lines 283-291, for the name it captured. Reading
  element 0 of an empty array gives \<^verbatim>\<open>undefined\<close>, and calling \<^verbatim>\<open>run\<close> on it throws.\<close>

fun invoke :: "env \<Rightarrow> closure \<Rightarrow> world \<Rightarrow> error + (jsval \<times> world)" where
  "invoke D (GulpClosure n) w =
     (if shouldRunAllTasksWithName n w \<noteq> 0 then forEach_run D (byName n w) w
      else (case findIncompleteByName n w of
              [] \<Rightarrow> Inl TypeError
            | t # _ \<Rightarrow> run D t w))"

text \<open>\<^verbatim>\<open>toGulp()\<close>, lines 274-292. It returns nothing; an exception of \<^verbatim>\<open>gulp.task\<close>
  leaves it at once.\<close>

definition toGulp :: "tid \<Rightarrow> world \<Rightarrow> error + world" where
  "toGulp this w =
     (let n = name (heap w this)
      in if has (gulp_tasks w) n then Inr w
         else gulp_task n (GulpClosure n) w)"


section \<open>Notions of the specification\<close>

text \<open>The calls of function values among the events of a state.\<close>

fun is_Invoke :: "event \<Rightarrow> bool" where
  "is_Invoke (Invoke g t a) = True"
| "is_Invoke e = False"

definition invocations :: "world \<Rightarrow> event list" where
  "invocations w = filter is_Invoke (trace w)"

text \<open>The fields that \<^verbatim>\<open>watch\<close>, \<^verbatim>\<open>ignore\<close> and \<^verbatim>\<open>recordStep\<close> are to leave alone.\<close>

definition same_fixed_fields :: "task \<Rightarrow> task \<Rightarrow> bool" where
  "same_fixed_fields a b =
     (name a = name b \<and> isComplete a = isComplete b \<and> paths a = paths b \<and>
      src a = src b \<and> output' a = output' b \<and> definition' a = definition' b)"

text \<open>The exclusion pattern in the words of the specification: \<^verbatim>\<open>'!./' + p\<close> with a single
  leading \<^verbatim>\<open>'././'\<close> (the one that a path starting with \<^verbatim>\<open>'./'\<close> makes behind the \<^verbatim>\<open>'!'\<close>)
  collapsed to \<^verbatim>\<open>'./'\<close>.\<close>

definition exclusion_pattern_spec :: "string \<Rightarrow> string" where
  "exclusion_pattern_spec p =
     (if take 2 p = ''./'' then ''!./'' @ drop 2 p else ''!./'' @ p)"

text \<open>\<open>occurs pat s\<close>: the string \<open>s\<close> has an occurrence of \<open>pat\<close>.\<close>

fun occurs :: "string \<Rightarrow> string \<Rightarrow> bool" where
  "occurs pat [] = (pat = [])"
| "occurs pat (c # cs) = (take (length pat) (c # cs) = pat \<or> occurs pat cs)"

text \<open>The command-line arguments include the name, \<^verbatim>\<open>'watch'\<close> or \<^verbatim>\<open>'tdd'\<close>.\<close>

definition args_include :: "string \<Rightarrow> world \<Rightarrow> bool" where
  "args_include n w =
     (n \<in> set (gutils_env w) \<or> ''watch'' \<in> set (gutils_env w) \<or> ''tdd'' \<in> set (gutils_env w))"

text \<open>The first registered task of the name that is not complete, if there is one.\<close>

definition first_incomplete :: "string \<Rightarrow> world \<Rightarrow> tid option" where
  "first_incomplete n w =
     find (\<lambda>t. name (heap w t) = n \<and> \<not> isComplete (heap w t)) (Elixir_tasks w)"

text \<open>An environment in which no function takes events back: what a call has recorded
  stays recorded, and the function can only add to it.\<close>

definition appends_only :: "env \<Rightarrow> bool" where
  "appends_only D =
     (\<forall>g t a w v w'. D g t a w = Inr (v, w') \<longrightarrow> (\<exists>evs. trace w' = trace w @ evs))"

text \<open>The number that a string of decimal digits denotes, by the character codes of the
  digits (\<^verbatim>\<open>'0'\<close> is 48).\<close>

definition decimal_value :: "string \<Rightarrow> nat" where
  "decimal_value ds = foldl (\<lambda>a c. 10 * a + (of_char c - 48)) 0 ds"



section \<open>Sample states\<close>

text \<open>A process in which nothing has been declared yet: source maps and prefixing are
  on, production mode is off, and the command line names no task.\<close>

definition blank :: task where
  "blank = \<lparr>name = [], watchers = [], isComplete = False, steps = [],
            paths = None, src = None, output' = None,
            definition' = JUndefined, category = JUndefined,
            gulpTask = JUndefined, registerWatchers = JUndefined\<rparr>"

definition config0 :: config where
  "config0 = \<lparr>sourcemaps = JBool True, css_autoprefix_enabled = JBool True,
              css_autoprefix_options = JUndefined\<rparr>"

definition world0 :: world where
  "world0 =
     \<lparr>heap = (\<lambda>_. blank),
      next_tid = 0,
      Elixir_tasks = [],
      Elixir_config = config0,
      Elixir_Plugins = 0,
      Elixir_inProduction = JBool False,
      Elixir_isRunningAllTasks = JBool False,
      gulp_tasks = Map.empty,
      gulp_tasks_proto = None,
      gutils_env = [],
      trace = []\<rparr>"

text \<open>An environment in which every definition records one step on its task and returns
  a stream.\<close>

definition demo_env :: env where
  "demo_env g this as w = Inr (JStr ''stream'', recordStep ''Saving to Destination'' this w)"

text \<open>\<open>world1\<close>: one task \<^verbatim>\<open>new Task('sass', f0)\<close> has been declared, at address 0.
  \<open>world2\<close>: a second task of the same name, \<^verbatim>\<open>new Task('sass', f1)\<close>, at address 1.\<close>

definition world1 :: world where
  "world1 = snd (constructor Task ''sass'' (JFun 0) None world0)"

definition world2 :: world where
  "world2 = snd (constructor Task ''sass'' (JFun 1) None world1)"

text \<open>\<open>world1_all\<close>: the state \<open>world1\<close> while the whole suite is being triggered.
  \<open>world2_sass\<close>: the state \<open>world2\<close> of a process started as \<^verbatim>\<open>gulp sass\<close>.\<close>

definition world1_all :: world where
  "world1_all = world1\<lparr>Elixir_isRunningAllTasks := JBool True\<rparr>"

definition world2_sass :: world where
  "world2_sass = world2\<lparr>gutils_env := [''sass'']\<rparr>"

text \<open>\<open>world2_done\<close>: the state \<open>world2\<close> of a process started as \<^verbatim>\<open>gulp watch\<close>, with both
  tasks complete already.
\<close>

definition world2_done :: world where
  "world2_done =
     update 1 (\<lambda>t. t\<lparr>isComplete := True\<rparr>)
       (update 0 (\<lambda>t. t\<lparr>isComplete := True\<rparr>) (world2\<lparr>gutils_env := [''watch'']\<rparr>))"

text \<open>\<open>world1_steps\<close>: the state \<open>world1\<close> after eleven steps have been recorded on the
  task.\<close>

definition world1_steps :: world where
  "world1_steps =
     fold (\<lambda>m. recordStep m 0)
       [''a'', ''b'', ''c'', ''d'', ''e'', ''f'', ''g'', ''h'', ''i'', ''j'', ''k''] world1"




section \<open>Auxiliary facts\<close>

lemma heap_update:
  "heap (update this f w) t = (if t = this then f (heap w this) else heap w t)"
  by (simp add: update_def)

lemma trace_update [simp]: "trace (update t f w) = trace w"
  by (simp add: update_def)

lemma running_all_update [simp]:
  "Elixir_isRunningAllTasks (update t f w) = Elixir_isRunningAllTasks w"
  by (simp add: update_def)

lemma heap_emit [simp]: "heap (emit e w) = heap w"
  by (simp add: emit_def)

lemma trace_emit [simp]: "trace (emit e w) = trace w @ [e]"
  by (simp add: emit_def)

lemma world1_eq:
  "world1 = world0\<lparr>heap := (\<lambda>_. blank)(0 := blank\<lparr>name := ''sass'', definition' := JFun 0\<rparr>),
                   next_tid := 1, Elixir_tasks := [0]\<rparr>"
  by (simp add: world1_def constructor_def describe_def register_def Elixir_tasks_push_def
      update_def Let_def Task_def world0_def blank_def)

lemma world2_eq:
  "world2 = world0\<lparr>heap := (\<lambda>_. blank)(0 := blank\<lparr>name := ''sass'', definition' := JFun 0\<rparr>,
                                         1 := blank\<lparr>name := ''sass'', definition' := JFun 1\<rparr>),
                   next_tid := 2, Elixir_tasks := [0, 1]\<rparr>"
  by (simp add: world2_def world1_eq constructor_def describe_def register_def
      Elixir_tasks_push_def update_def Let_def Task_def world0_def blank_def)



lemma run_returns:
  assumes "registerWatchers_if_any D this w = Inr (u, w1)"
    and "definition' (heap w1 this) = JFun g"
    and "D g this (Args2 (Elixir_Plugins w1) (Elixir_config w1))
           (emit (Invoke g this (Args2 (Elixir_Plugins w1) (Elixir_config w1))) w1) = Inr (v, w2)"
  shows "run D this w =
           Inr (v, snd (log JUndefined this (update this (\<lambda>t. t\<lparr>isComplete := True\<rparr>) w2)))"
  using assms by (simp add: run_def call_def Let_def)

lemma log_undefined:
  "snd (log JUndefined this w) =
     (if truthy (Elixir_isRunningAllTasks w) then w
      else emit (LogTask this (fst (summary this w))) w)"
  by (simp add: log_def Elixir_log_task_def)

lemma summary_update_isComplete:
  "fst (summary this (update t (\<lambda>t. t\<lparr>isComplete := b\<rparr>) w)) = fst (summary this w)"
  by (simp add: summary_def heap_update)

lemma constructor_trace: "trace (snd (constructor cls nm description ps w)) = trace w"
  by (simp add: constructor_def describe_def register_def Elixir_tasks_push_def Let_def
      update_def split: option.split)


section \<open>Running a task\<close>

text \<open>
  C1. For a task whose definition is a function, a call of \<^verbatim>\<open>run\<close> in which the definition
  returns invokes that function exactly once, with \<^verbatim>\<open>Elixir.Plugins\<close> and \<^verbatim>\<open>Elixir.config\<close>
  as its arguments, then sets \<^verbatim>\<open>isComplete\<close> to true, and returns the result of the
  definition. In the theorem, \<open>w1\<close> is the state after the first statement of \<^verbatim>\<open>run\<close>
  (it is the state \<open>w\<close> itself for a plain \<^verbatim>\<open>Task\<close>, which has no \<^verbatim>\<open>registerWatchers\<close>),
  \<open>w2\<close> is the state in which the body of the definition returns \<open>v\<close>, and \<open>evs\<close> are the
  events of that body: the calls recorded when \<^verbatim>\<open>run\<close> returns are those before it, one
  call of the definition, and the calls that the body made itself. A task made by
  \<^verbatim>\<open>new Task(name, f, paths)\<close> with a function \<open>f\<close> has \<open>f\<close> as its definition, and the first
  statement of \<^verbatim>\<open>run\<close> does nothing on it. The constructor, \<^verbatim>\<open>describe\<close> and \<^verbatim>\<open>register\<close>
  record no call at all: they leave the trace as it is.
\<close>

theorem run_invokes_definition_once:
  assumes "registerWatchers_if_any D this w = Inr (u, w1)"
    and "definition' (heap w1 this) = JFun g"
    and "D g this (Args2 (Elixir_Plugins w1) (Elixir_config w1))
           (emit (Invoke g this (Args2 (Elixir_Plugins w1) (Elixir_config w1))) w1) = Inr (v, w2)"
    and "trace w2 = trace w1 @ [Invoke g this (Args2 (Elixir_Plugins w1) (Elixir_config w1))] @ evs"
  shows "(\<exists>w'. run D this w = Inr (v, w') \<and> isComplete (heap w' this) \<and>
              invocations w' =
                invocations w1 @ [Invoke g this (Args2 (Elixir_Plugins w1) (Elixir_config w1))] @
                filter is_Invoke evs) \<and>
         definition' (heap (snd (constructor Task nm (JFun f) ps w0))
                        (fst (constructor Task nm (JFun f) ps w0))) = JFun f \<and>
         registerWatchers_if_any D (fst (constructor Task nm (JFun f) ps w0))
             (snd (constructor Task nm (JFun f) ps w0)) =
           Inr (JUndefined, snd (constructor Task nm (JFun f) ps w0)) \<and>
         trace (snd (constructor cls nm description ps w0)) = trace w0 \<and>
         trace (snd (describe d t w0)) = trace w0 \<and>
         trace (snd (register t w0)) = trace w0"
proof -
  have "trace (snd (describe d t w0)) = trace w0" "trace (snd (register t w0)) = trace w0"
    by (simp_all add: describe_def register_def Elixir_tasks_push_def)
  moreover have "definition' (heap (snd (constructor Task nm (JFun f) ps w0))
      (fst (constructor Task nm (JFun f) ps w0))) = JFun f"
    "registerWatchers_if_any D (fst (constructor Task nm (JFun f) ps w0))
        (snd (constructor Task nm (JFun f) ps w0)) =
      Inr (JUndefined, snd (constructor Task nm (JFun f) ps w0))"
    by (simp_all add: registerWatchers_if_any_def constructor_def describe_def register_def
        Elixir_tasks_push_def update_def Let_def Task_def split: option.split)
  moreover from run_returns [OF assms(1-3)] assms(4)
  have "\<exists>w'. run D this w = Inr (v, w') \<and> isComplete (heap w' this) \<and>
      invocations w' =
        invocations w1 @ [Invoke g this (Args2 (Elixir_Plugins w1) (Elixir_config w1))] @
        filter is_Invoke evs"
    by (simp add: log_undefined heap_update invocations_def)
  ultimately show ?thesis
    by (simp only: constructor_trace simp_thms)
qed

theorem run_invokes_definition_once_witness:
  "(\<exists>w'. run demo_env 0 world1 = Inr (JStr ''stream'', w') \<and> isComplete (heap w' 0) \<and>
        invocations w' = [Invoke 0 0 (Args2 0 config0)]) \<and>
   definition' (heap world1 0) = JFun 0 \<and>
   trace (snd (constructor Task ''sass'' (JFun 0) None world0)) = [] \<and>
   trace (snd (describe (JFun 0) 0 world0)) = [] \<and>
   trace (snd (register 0 world0)) = []"
proof -
  have w: "invocations world1 = []" "Elixir_Plugins world1 = 0" "Elixir_config world1 = config0"
    "trace world1 = []" "trace world0 = []"
    by (simp_all add: invocations_def world1_eq world0_def)
  have h1: "registerWatchers_if_any demo_env 0 world1 = Inr (JUndefined, world1)"
    by (simp add: registerWatchers_if_any_def world1_eq blank_def)
  have h2: "definition' (heap world1 0) = JFun 0"
    by (simp add: world1_eq blank_def)
  have h3: "demo_env 0 0 (Args2 (Elixir_Plugins world1) (Elixir_config world1))
      (emit (Invoke 0 0 (Args2 (Elixir_Plugins world1) (Elixir_config world1))) world1) =
      Inr (JStr ''stream'', recordStep ''Saving to Destination'' 0
        (emit (Invoke 0 0 (Args2 (Elixir_Plugins world1) (Elixir_config world1))) world1))"
    by (simp add: demo_env_def)
  have h4: "trace (recordStep ''Saving to Destination'' 0
        (emit (Invoke 0 0 (Args2 (Elixir_Plugins world1) (Elixir_config world1))) world1)) =
      trace world1 @ [Invoke 0 0 (Args2 (Elixir_Plugins world1) (Elixir_config world1))] @ []"
    by (simp add: recordStep_def)
  from run_invokes_definition_once [OF h1 h2 h3 h4,
      where cls = Task and nm = "''sass''" and description = "JFun 0" and ps = None
        and ?w0.0 = world0 and d = "JFun 0" and t = 0 and f = 0]
  show ?thesis by (simp add: w h2)
qed

text \<open>
  C2, as the code has it. \<^verbatim>\<open>run\<close> hands the task to the logger only while the whole
  suite is not being triggered: a call of \<^verbatim>\<open>run\<close> in which the definition returns (in
  the state \<open>w2\<close>) adds the summary of the task's steps to the log when
  \<^verbatim>\<open>Elixir.isRunningAllTasks\<close> is falsy, and adds nothing when it is truthy.
\<close>

theorem run_logs_unless_running_all:
  assumes "registerWatchers_if_any D this w = Inr (u, w1)"
    and "definition' (heap w1 this) = JFun g"
    and "D g this (Args2 (Elixir_Plugins w1) (Elixir_config w1))
           (emit (Invoke g this (Args2 (Elixir_Plugins w1) (Elixir_config w1))) w1) = Inr (v, w2)"
  shows "\<exists>w'. run D this w = Inr (v, w') \<and>
           trace w' = trace w2 @
             (if truthy (Elixir_isRunningAllTasks w2) then []
              else [LogTask this (fst (summary this w2))])"
  using run_returns [OF assms]
  by (simp add: log_undefined summary_update_isComplete)

theorem run_logs_unless_running_all_witness:
  "\<exists>w'. run demo_env 0 world1 = Inr (JStr ''stream'', w') \<and>
      trace w' = [Invoke 0 0 (Args2 0 config0), LogTask 0 ''1. Saving to Destination'']"
proof -
  let ?a = "Args2 (Elixir_Plugins world1) (Elixir_config world1)"
  let ?w2 = "recordStep ''Saving to Destination'' 0 (emit (Invoke 0 0 ?a) world1)"
  have h1: "registerWatchers_if_any demo_env 0 world1 = Inr (JUndefined, world1)"
    by (simp add: registerWatchers_if_any_def world1_eq blank_def)
  have h2: "definition' (heap world1 0) = JFun 0"
    by (simp add: world1_eq blank_def)
  have h3: "demo_env 0 0 ?a (emit (Invoke 0 0 ?a) world1) = Inr (JStr ''stream'', ?w2)"
    by (simp add: demo_env_def)
  have w: "trace ?w2 = [Invoke 0 0 (Args2 0 config0)]"
    "\<not> truthy (Elixir_isRunningAllTasks ?w2)"
    "fst (summary 0 ?w2) = ''1. Saving to Destination''"
    by (simp_all add: recordStep_def update_def emit_def summary_def world1_eq world0_def
        blank_def show_nat.simps digit_def enumerate_eq_zip)
  from run_logs_unless_running_all [OF h1 h2 h3] show ?thesis
    by (simp only: w if_False append.simps)
qed

text \<open>
  The claim C2 as it was stated, that every call of \<^verbatim>\<open>run\<close> logs the summary, fails
  while \<^verbatim>\<open>Elixir.isRunningAllTasks\<close> is true: \<^verbatim>\<open>run\<close> returns the stream of the
  definition, and the call of the definition is the only event.
\<close>

theorem run_logs_nothing_when_running_all:
  "map_sum id (map_prod id trace) (run demo_env 0 world1_all) =
     Inr (JStr ''stream'', [Invoke 0 0 (Args2 0 config0)])"
  by (simp add: world1_all_def world1_eq run_def registerWatchers_if_any_def call_def demo_env_def
      recordStep_def update_def emit_def log_def Let_def world0_def blank_def)


section \<open>The closure registered with gulp\<close>

lemma set_intersection_loop:
  "set (intersection_loop xs other result) = set result \<union> (set xs \<inter> set other)"
  by (induction xs other result rule: intersection_loop.induct) auto

lemma shouldRunAll_iff: "shouldRunAllTasksWithName n w \<noteq> 0 \<longleftrightarrow> args_include n w"
proof -
  have "shouldRunAllTasksWithName n w \<noteq> 0 \<longleftrightarrow>
        set (intersection (gutils_env w) [n, ''watch'', ''tdd'']) \<noteq> {}"
    by (simp add: shouldRunAllTasksWithName_def)
  then show ?thesis
    by (auto simp add: intersection_def set_intersection_loop args_include_def)
qed

lemma first_of_filters:
  "(case filter Q (filter P xs) of [] \<Rightarrow> a | t # _ \<Rightarrow> f t) =
   (case find (\<lambda>x. P x \<and> Q x) xs of None \<Rightarrow> a | Some t \<Rightarrow> f t)"
  by (induction xs) auto

text \<open>The loop over the tasks is a fold of \<open>run\<close> that an exception ends.\<close>

lemma fold_run_Inl:
  "fold (\<lambda>t r. case r of Inl e \<Rightarrow> Inl e | Inr (u, w) \<Rightarrow> run D t w) ts (Inl e) = Inl e"
  by (induction ts) simp_all

lemma forEach_run_fold:
  "forEach_run D ts w =
     map_sum id (\<lambda>(u, w'). (JUndefined, w'))
       (fold (\<lambda>t r. case r of Inl e \<Rightarrow> Inl e | Inr (u, w) \<Rightarrow> run D t w) ts (Inr (r, w)))"
proof (induction ts arbitrary: w r)
  case Nil
  show ?case by simp
next
  case (Cons t ts)
  show ?case
  proof (cases "run D t w")
    case (Inl e)
    then show ?thesis by (simp add: fold_run_Inl)
  next
    case (Inr p)
    obtain v w1 where p: "p = (v, w1)" by (cases p)
    from Inr p Cons.IH [of w1 v] show ?thesis by simp
  qed
qed

text \<open>What a call of \<open>run\<close> that returns has added to the trace.\<close>

lemma call_trace:
  assumes "appends_only D" and "call D f t a w = Inr (v, w')"
  shows "\<exists>g evs. f = JFun g \<and> trace w' = trace w @ Invoke g t a # evs"
proof (cases f)
  case (JFun g)
  with assms(2) have "D g t a (emit (Invoke g t a) w) = Inr (v, w')"
    by (simp add: call_def)
  with assms(1) obtain evs where "trace w' = trace (emit (Invoke g t a) w) @ evs"
    unfolding appends_only_def by blast
  with JFun show ?thesis by simp
qed (use assms(2) in \<open>simp_all add: call_def\<close>)

lemma run_trace:
  assumes D: "appends_only D" and r: "run D t w = Inr (v, w')"
  shows "\<exists>evs. trace w' = trace w @ evs \<and> (\<exists>g p c. Invoke g t (Args2 p c) \<in> set evs)"
proof -
  from r obtain u w1 where h: "registerWatchers_if_any D t w = Inr (u, w1)"
    by (auto simp add: run_def split: sum.splits)
  have "\<exists>e1. trace w1 = trace w @ e1"
  proof (cases "truthy (registerWatchers (heap w t))")
    case True
    with h have "call D (registerWatchers (heap w t)) t Args0 w = Inr (u, w1)"
      by (simp add: registerWatchers_if_any_def)
    from call_trace [OF D this] show ?thesis by auto
  next
    case False
    with h show ?thesis by (simp add: registerWatchers_if_any_def)
  qed
  then obtain e1 where e1: "trace w1 = trace w @ e1" ..
  let ?a = "Args2 (Elixir_Plugins w1) (Elixir_config w1)"
  from r h obtain w2 where c: "call D (definition' (heap w1 t)) t ?a w1 = Inr (v, w2)"
    and w': "w' = snd (log JUndefined t (update t (\<lambda>t. t\<lparr>isComplete := True\<rparr>) w2))"
    by (auto simp add: run_def Let_def split: sum.splits)
  from call_trace [OF D c] obtain g e2 where e2: "trace w2 = trace w1 @ Invoke g t ?a # e2"
    by auto
  from w' have "\<exists>e3. trace w' = trace w2 @ e3"
    by (simp add: log_undefined)
  then obtain e3 where "trace w' = trace w2 @ e3" ..
  with e1 e2 have "trace w' = trace w @ (e1 @ Invoke g t ?a # e2 @ e3)" by simp
  moreover have "Invoke g t ?a \<in> set (e1 @ Invoke g t ?a # e2 @ e3)" by simp
  ultimately show ?thesis by blast
qed

lemma forEach_run_trace:
  assumes "appends_only D" and "forEach_run D ts w = Inr (v, w')"
  shows "v = JUndefined \<and>
         (\<exists>evs. trace w' = trace w @ evs \<and>
            (\<forall>t \<in> set ts. \<exists>g p c. Invoke g t (Args2 p c) \<in> set evs))"
  using assms(2)
proof (induction ts arbitrary: w)
  case Nil
  then show ?case by simp
next
  case (Cons t ts)
  from Cons.prems obtain u w1 where r: "run D t w = Inr (u, w1)"
    and f: "forEach_run D ts w1 = Inr (v, w')"
    by (auto split: sum.splits)
  from run_trace [OF assms(1) r] obtain e1 g p c where
    e1: "trace w1 = trace w @ e1" "Invoke g t (Args2 p c) \<in> set e1" by blast
  from Cons.IH [OF f] obtain e2 where v: "v = JUndefined" and
    e2: "trace w' = trace w1 @ e2" "\<forall>t \<in> set ts. \<exists>g p c. Invoke g t (Args2 p c) \<in> set e2"
    by blast
  from e1 e2 have "trace w' = trace w @ (e1 @ e2)" by simp
  moreover have "\<forall>t \<in> set (t # ts). \<exists>g p c. Invoke g t (Args2 p c) \<in> set (e1 @ e2)"
  proof
    fix x assume "x \<in> set (t # ts)"
    then consider "x = t" | "x \<in> set ts" by auto
    then show "\<exists>g p c. Invoke g x (Args2 p c) \<in> set (e1 @ e2)"
    proof cases
      case 1
      with e1(2) show ?thesis by auto
    next
      case 2
      with e2(2) obtain g' p' c' where "Invoke g' x (Args2 p' c') \<in> set e2" by blast
      then show ?thesis by auto
    qed
  qed
  ultimately show ?case using v by blast
qed

text \<open>
  C3. \<^verbatim>\<open>toGulp\<close> registers, under the name of the task, a closure for that name (when gulp
  has no task of the name yet and accepts the name). A call of the closure runs every
  registered task of the name exactly when the command-line arguments include the name,
  \<^verbatim>\<open>'watch'\<close> or \<^verbatim>\<open>'tdd'\<close>: \<^verbatim>\<open>run\<close> is applied to each task of the name in the registry, in
  the order of the registry, complete or not, each on the state that the one before left,
  until one throws; the closure then returns \<^verbatim>\<open>undefined\<close>. So when the closure returns (and
  no function takes events back), every registered task of the name has had its
  definition called in the meantime. Otherwise the closure runs only the first
  registered task of the name that is not complete (and throws a \<^verbatim>\<open>TypeError\<close> when there is
  none).
\<close>

theorem closure_runs_all_or_first_incomplete:
  "(name (heap w this) \<noteq> [] \<and> name (heap w this) \<noteq> ''__proto__'' \<and>
    \<not> has (gulp_tasks w) (name (heap w this)) \<longrightarrow>
      toGulp this w =
        Inr (emit (GulpTask (name (heap w this)))
               (w\<lparr>gulp_tasks :=
                    (gulp_tasks w)(name (heap w this) \<mapsto> GulpClosure (name (heap w this)))\<rparr>))) \<and>
   invoke D (GulpClosure n) w' =
     (if args_include n w'
      then map_sum id (\<lambda>(u, w). (JUndefined, w))
             (fold (\<lambda>t r. case r of Inl e \<Rightarrow> Inl e | Inr (u, w) \<Rightarrow> run D t w)
                (filter (\<lambda>t. name (heap w' t) = n) (Elixir_tasks w'))
                (Inr (JUndefined, w')))
      else (case first_incomplete n w' of
              None \<Rightarrow> Inl TypeError
            | Some t \<Rightarrow> run D t w')) \<and>
   (appends_only D \<and> args_include n w' \<and> invoke D (GulpClosure n) w' = Inr (v, w'') \<longrightarrow>
      v = JUndefined \<and>
      (\<exists>evs. trace w'' = trace w' @ evs \<and>
         (\<forall>t \<in> set (Elixir_tasks w'). name (heap w' t) = n \<longrightarrow>
            (\<exists>g p c. Invoke g t (Args2 p c) \<in> set evs))))"
proof -
  have first: "(case findIncompleteByName n w' of [] \<Rightarrow> Inl TypeError | t # _ \<Rightarrow> run D t w') =
        (case first_incomplete n w' of None \<Rightarrow> Inl TypeError | Some t \<Rightarrow> run D t w')"
    unfolding findIncompleteByName_def byName_def first_incomplete_def
    by (rule first_of_filters)
  have inv: "invoke D (GulpClosure n) w' =
     (if args_include n w'
      then forEach_run D (filter (\<lambda>t. name (heap w' t) = n) (Elixir_tasks w')) w'
      else (case first_incomplete n w' of
              None \<Rightarrow> Inl TypeError
            | Some t \<Rightarrow> run D t w'))"
    unfolding invoke.simps shouldRunAll_iff first by (simp add: byName_def)
  have all: "v = JUndefined \<and>
      (\<exists>evs. trace w'' = trace w' @ evs \<and>
         (\<forall>t \<in> set (Elixir_tasks w'). name (heap w' t) = n \<longrightarrow>
            (\<exists>g p c. Invoke g t (Args2 p c) \<in> set evs)))"
    if "appends_only D" "args_include n w'" "invoke D (GulpClosure n) w' = Inr (v, w'')"
  proof -
    from that(2,3) inv
    have "forEach_run D (filter (\<lambda>t. name (heap w' t) = n) (Elixir_tasks w')) w' = Inr (v, w'')"
      by simp
    from forEach_run_trace [OF that(1) this] show ?thesis by auto
  qed
  have reg: "toGulp this w =
        Inr (emit (GulpTask (name (heap w this)))
               (w\<lparr>gulp_tasks :=
                    (gulp_tasks w)(name (heap w this) \<mapsto> GulpClosure (name (heap w this)))\<rparr>))"
    if "name (heap w this) \<noteq> []" "name (heap w this) \<noteq> ''__proto__''"
      "\<not> has (gulp_tasks w) (name (heap w this))"
    using that by (simp add: toGulp_def gulp_task_def Let_def)
  from inv have "invoke D (GulpClosure n) w' =
     (if args_include n w'
      then map_sum id (\<lambda>(u, w). (JUndefined, w))
             (fold (\<lambda>t r. case r of Inl e \<Rightarrow> Inl e | Inr (u, w) \<Rightarrow> run D t w)
                (filter (\<lambda>t. name (heap w' t) = n) (Elixir_tasks w'))
                (Inr (JUndefined, w')))
      else (case first_incomplete n w' of
              None \<Rightarrow> Inl TypeError
            | Some t \<Rightarrow> run D t w'))"
    by (simp only: forEach_run_fold [where r = JUndefined])
  with all reg show ?thesis by blast
qed

lemma world2_run0:
  "run demo_env 0 world2 =
     Inr (JStr ''stream'',
          world2\<lparr>heap := (heap world2)(0 := blank\<lparr>name := ''sass'', definition' := JFun 0,
                     steps := [''Saving to Destination''], isComplete := True\<rparr>),
                 trace := [Invoke 0 0 (Args2 0 config0), LogTask 0 ''1. Saving to Destination'']\<rparr>)"
  by (simp add: world2_eq run_def registerWatchers_if_any_def call_def demo_env_def
      recordStep_def update_def emit_def log_def Elixir_log_task_def summary_def Let_def
      world0_def blank_def show_nat.simps digit_def enumerate_eq_zip)

lemma world2_done_all:
  "map_sum id (map_prod id trace) (forEach_run demo_env [0, Suc 0] world2_done) =
     Inr (JUndefined, [Invoke 0 0 (Args2 0 config0), LogTask 0 ''1. Saving to Destination'',
                       Invoke 1 1 (Args2 0 config0), LogTask 1 ''1. Saving to Destination''])"
  by (simp add: world2_done_def world2_eq run_def registerWatchers_if_any_def call_def
      demo_env_def recordStep_def update_def emit_def log_def Elixir_log_task_def summary_def
      Let_def world0_def blank_def show_nat.simps digit_def enumerate_eq_zip)

lemma appends_only_demo_env: "appends_only demo_env"
  by (simp add: appends_only_def demo_env_def recordStep_def)

theorem closure_runs_all_or_first_incomplete_witness:
  "map_sum id (\<lambda>w. gulp_tasks w ''sass'') (toGulp 0 world2) = Inr (Some (GulpClosure ''sass'')) \<and>
   map_sum id (map_prod id trace) (invoke demo_env (GulpClosure ''sass'') world2) =
     Inr (JStr ''stream'', [Invoke 0 0 (Args2 0 config0), LogTask 0 ''1. Saving to Destination'']) \<and>
   isComplete (heap world2_done 0) \<and> isComplete (heap world2_done 1) \<and>
   map_sum id (map_prod id trace) (invoke demo_env (GulpClosure ''sass'') world2_done) =
     Inr (JUndefined, [Invoke 0 0 (Args2 0 config0), LogTask 0 ''1. Saving to Destination'',
                       Invoke 1 1 (Args2 0 config0), LogTask 1 ''1. Saving to Destination'']) \<and>
   (\<exists>w'' evs. invoke demo_env (GulpClosure ''sass'') world2_done = Inr (JUndefined, w'') \<and>
      trace w'' = trace world2_done @ evs \<and>
      (\<exists>g p c. Invoke g 0 (Args2 p c) \<in> set evs) \<and>
      (\<exists>g p c. Invoke g 1 (Args2 p c) \<in> set evs))"
proof -
  have w: "\<not> has (gulp_tasks world2) ''sass''" "name (heap world2 0) = ''sass''"
    "\<not> args_include ''sass'' world2" "first_incomplete ''sass'' world2 = Some 0"
    by (simp_all add: world2_eq world0_def blank_def has_def args_include_def
        first_incomplete_def)
  have d: "args_include ''sass'' world2_done"
    "filter (\<lambda>t. name (heap world2_done t) = ''sass'') (Elixir_tasks world2_done) = [0, Suc 0]"
    "isComplete (heap world2_done 0)" "isComplete (heap world2_done 1)"
    "Elixir_tasks world2_done = [0, 1]"
    "name (heap world2_done 0) = ''sass''" "name (heap world2_done 1) = ''sass''"
    by (simp_all add: world2_done_def update_def world2_eq world0_def blank_def args_include_def)
  note t1 = closure_runs_all_or_first_incomplete
    [where w = world2 and this = 0 and D = demo_env and n = "''sass''" and w' = world2]
  note t2 = closure_runs_all_or_first_incomplete
    [where w = world2 and this = 0 and D = demo_env and n = "''sass''" and w' = world2_done]
  from t1 have a: "toGulp 0 world2 =
      Inr (emit (GulpTask ''sass'')
        (world2\<lparr>gulp_tasks := (gulp_tasks world2)(''sass'' \<mapsto> GulpClosure ''sass'')\<rparr>))"
    by (simp add: w)
  from t1 [THEN conjunct2, THEN conjunct1]
  have b: "invoke demo_env (GulpClosure ''sass'') world2 = run demo_env 0 world2"
    by (simp only: w if_False option.case)
  from t2 [THEN conjunct2, THEN conjunct1]
  have c: "invoke demo_env (GulpClosure ''sass'') world2_done =
      forEach_run demo_env [0, Suc 0] world2_done"
    by (simp only: d(1,2) if_True forEach_run_fold [where r = JUndefined, symmetric])
  from world2_done_all c obtain w'' where
    i: "invoke demo_env (GulpClosure ''sass'') world2_done = Inr (JUndefined, w'')"
    by (cases "invoke demo_env (GulpClosure ''sass'') world2_done") auto
  from t2 [where v = JUndefined and w'' = w''] appends_only_demo_env d(1) i
  obtain evs where "trace w'' = trace world2_done @ evs"
    "\<forall>t \<in> set (Elixir_tasks world2_done). name (heap world2_done t) = ''sass'' \<longrightarrow>
       (\<exists>g p c. Invoke g t (Args2 p c) \<in> set evs)"
    by blast
  with d(5-7) have "trace w'' = trace world2_done @ evs"
    "\<exists>g p c. Invoke g 0 (Args2 p c) \<in> set evs" "\<exists>g p c. Invoke g 1 (Args2 p c) \<in> set evs"
    by simp_all
  with i have e: "\<exists>w'' evs. invoke demo_env (GulpClosure ''sass'') world2_done = Inr (JUndefined, w'') \<and>
      trace w'' = trace world2_done @ evs \<and>
      (\<exists>g p c. Invoke g 0 (Args2 p c) \<in> set evs) \<and>
      (\<exists>g p c. Invoke g 1 (Args2 p c) \<in> set evs)"
    by blast
  have "map_sum id (\<lambda>w. gulp_tasks w ''sass'') (toGulp 0 world2) = Inr (Some (GulpClosure ''sass''))"
    by (simp add: a emit_def)
  moreover have "map_sum id (map_prod id trace) (invoke demo_env (GulpClosure ''sass'') world2) =
     Inr (JStr ''stream'', [Invoke 0 0 (Args2 0 config0), LogTask 0 ''1. Saving to Destination''])"
    by (simp add: b world2_run0 del: invoke.simps)
  moreover have "map_sum id (map_prod id trace) (invoke demo_env (GulpClosure ''sass'') world2_done) =
     Inr (JUndefined, [Invoke 0 0 (Args2 0 config0), LogTask 0 ''1. Saving to Destination'',
                       Invoke 1 1 (Args2 0 config0), LogTask 1 ''1. Saving to Destination''])"
    using world2_done_all by (simp add: c del: invoke.simps forEach_run.simps)
  ultimately show ?thesis using d(3,4) e by blast
qed


section \<open>Declaring a task\<close>

text \<open>
  C4. Constructing a task with a description function appends the new task to
  \<^verbatim>\<open>Elixir.tasks\<close> exactly once, and so does a call of \<^verbatim>\<open>describe\<close> on an existing task:
  the registry grows by that one entry at its end. This happens at declaration: no
  function is called (the trace is unchanged), the new task is not complete, and
  \<^verbatim>\<open>describe\<close> leaves \<^verbatim>\<open>isComplete\<close> as it is.
\<close>

theorem construction_registers_once:
  "(case constructor cls nm (JFun g) ps w of (t, w') \<Rightarrow>
      t = next_tid w \<and> Elixir_tasks w' = Elixir_tasks w @ [t] \<and>
      count_list (Elixir_tasks w') t = count_list (Elixir_tasks w) t + 1 \<and>
      \<not> isComplete (heap w' t) \<and> trace w' = trace w) \<and>
   (case describe d this w of (t, w') \<Rightarrow>
      t = this \<and> Elixir_tasks w' = Elixir_tasks w @ [this] \<and>
      count_list (Elixir_tasks w') this = count_list (Elixir_tasks w) this + 1 \<and>
      isComplete (heap w' this) = isComplete (heap w this) \<and> trace w' = trace w)"
  by (simp add: constructor_def describe_def register_def Elixir_tasks_push_def Let_def update_def
      split: option.split)

theorem construction_registers_once_witness:
  "fst (constructor Task ''sass'' (JFun 0) None world0) = 0 \<and>
   Elixir_tasks (snd (constructor Task ''sass'' (JFun 0) None world0)) = [0] \<and>
   Elixir_tasks (snd (describe (JFun 1) 0 world1)) = [0, 0]"
  using construction_registers_once [where cls = Task and nm = "''sass''" and g = 0 and ps = None
      and w = world0 and d = "JFun 1" and this = 0]
    construction_registers_once [where cls = Task and nm = "''sass''" and g = 0 and ps = None
      and w = world1 and d = "JFun 1" and this = 0]
  by (simp add: world0_def world1_eq split: prod.splits)


section \<open>The pipeline helpers behind a toggle\<close>

text \<open>
  C5. \<^verbatim>\<open>writeSourceMaps\<close> consults \<^verbatim>\<open>Elixir.config.sourcemaps\<close>, \<^verbatim>\<open>autoPrefix\<close> consults
  \<^verbatim>\<open>Elixir.config.css.autoprefix.enabled\<close>, \<^verbatim>\<open>minify\<close> consults \<^verbatim>\<open>Elixir.inProduction\<close>. When
  its toggle is falsy, the helper returns the pass-through transform and changes nothing;
  when it is truthy, the helper records its step (\<^verbatim>\<open>'Writing Source Maps'\<close>,
  \<^verbatim>\<open>'Autoprefixing CSS'\<close>, \<^verbatim>\<open>'Applying Minification'\<close>) on the task and returns the stream of
  the external plugin.
\<close>

theorem toggle_guarded_helpers:
  "writeSourceMaps this w =
     (if truthy (sourcemaps (Elixir_config w))
      then (SourcemapsWrite ''.'',
            w\<lparr>heap := (heap w)(this := (heap w this)
                 \<lparr>steps := steps (heap w this) @ [''Writing Source Maps'']\<rparr>)\<rparr>)
      else (PassThrough, w)) \<and>
   autoPrefix this w =
     (if truthy (css_autoprefix_enabled (Elixir_config w))
      then (Autoprefixer (css_autoprefix_options (Elixir_config w)),
            w\<lparr>heap := (heap w)(this := (heap w this)
                 \<lparr>steps := steps (heap w this) @ [''Autoprefixing CSS'']\<rparr>)\<rparr>)
      else (PassThrough, w)) \<and>
   minify this w =
     (if truthy (Elixir_inProduction w)
      then (Minifier (output' (heap w this)),
            w\<lparr>heap := (heap w)(this := (heap w this)
                 \<lparr>steps := steps (heap w this) @ [''Applying Minification'']\<rparr>)\<rparr>)
      else (PassThrough, w))"
  by (simp add: writeSourceMaps_def autoPrefix_def minify_def recordStep_def update_def Let_def)

theorem toggle_guarded_helpers_witness:
  "fst (writeSourceMaps 0 world1) = SourcemapsWrite ''.'' \<and>
   steps (heap (snd (writeSourceMaps 0 world1)) 0) = [''Writing Source Maps''] \<and>
   fst (autoPrefix 0 world1) = Autoprefixer JUndefined \<and>
   steps (heap (snd (autoPrefix 0 world1)) 0) = [''Autoprefixing CSS''] \<and>
   minify 0 world1 = (PassThrough, world1)"
  using toggle_guarded_helpers [of 0 world1]
  by (simp add: world1_eq world0_def config0_def blank_def)


section \<open>Watchers, steps and the summary\<close>

text \<open>
  C6. After \<^verbatim>\<open>watch(regex, category)\<close> the field \<^verbatim>\<open>category\<close> of the task is \<^verbatim>\<open>'default'\<close>
  when the category given is absent, \<^verbatim>\<open>null\<close> or otherwise falsy, and is the category given
  when that is truthy.
\<close>

theorem watch_category:
  "category (heap (snd (watch regex cat this w)) this) =
     (if truthy cat then cat else JStr ''default'') \<and>
   category (heap (snd (watch regex JUndefined this w)) this) = JStr ''default'' \<and>
   category (heap (snd (watch regex JNull this w)) this) = JStr ''default''"
  by (simp add: watch_def Let_def heap_update js_or_def)

theorem watch_category_witness:
  "category (heap (snd (watch (JStr ''**/*.scss'') (JStr []) 0 world1)) 0) = JStr ''default'' \<and>
   category (heap (snd (watch (JStr ''**/*.scss'') (JStr ''css'') 0 world1)) 0) = JStr ''css''"
  using watch_category [of "JStr ''**/*.scss''" "JStr []" 0 world1]
    watch_category [of "JStr ''**/*.scss''" "JStr ''css''" 0 world1]
  by simp

lemma enumerate_map_nth:
  "map (\<lambda>(i, x). f i x) (enumerate n xs) = map (\<lambda>i. f (n + i) (xs ! i)) [0..<length xs]"
  by (rule nth_equalityI) (auto simp: nth_enumerate_eq)

lemma fold_recordStep:
  "steps (heap (fold (\<lambda>m. recordStep m this) ms w) this) = steps (heap w this) @ ms"
  by (induction ms arbitrary: w) (simp_all add: recordStep_def heap_update)

lemma digit_code: "d < 10 \<Longrightarrow> of_char (digit d) = 48 + d"
proof -
  assume "d < 10"
  then consider "d = 0" | "d = 1" | "d = 2" | "d = 3" | "d = 4" | "d = 5" | "d = 6" | "d = 7"
    | "d = 8" | "d = 9" by atomize_elim arith
  then show ?thesis by cases (simp_all add: digit_def)
qed

lemma digit_in: "d < 10 \<Longrightarrow> digit d \<in> set ''0123456789''"
  unfolding digit_def by (rule nth_mem) simp

lemma decimal_value_snoc:
  "decimal_value (ds @ [c]) = 10 * decimal_value ds + (of_char c - 48)"
  by (simp add: decimal_value_def)

lemma show_nat_value: "decimal_value (show_nat n) = n"
proof (induction n rule: show_nat.induct)
  case (1 n)
  show ?case
  proof (cases "n < 10")
    case True
    then show ?thesis
      by (simp add: show_nat.simps [of n] decimal_value_def digit_code)
  next
    case False
    with "1" have "decimal_value (show_nat (n div 10)) = n div 10" by simp
    with False show ?thesis
      by (simp add: show_nat.simps [of n] decimal_value_snoc digit_code)
  qed
qed

lemma show_nat_digits: "set (show_nat n) \<subseteq> set ''0123456789''"
proof (induction n rule: show_nat.induct)
  case (1 n)
  have "digit n \<in> set ''0123456789''" if "n < 10" using that by (rule digit_in)
  moreover have "digit (n mod 10) \<in> set ''0123456789''" by (rule digit_in) simp
  ultimately show ?case using "1"
    by (cases "n < 10") (simp_all add: show_nat.simps [of n])
qed

lemma show_nat_nonempty: "show_nat n \<noteq> []"
  by (simp add: show_nat.simps [of n])

lemma show_nat_no_leading_zero: "n \<noteq> 0 \<Longrightarrow> hd (show_nat n) \<noteq> CHR ''0''"
proof (induction n rule: show_nat.induct)
  case (1 n)
  show ?case
  proof (cases "n < 10")
    case True
    with "1.prems" digit_code [of n] have "of_char (digit n) \<noteq> (48 :: nat)" by simp
    then have "digit n \<noteq> CHR ''0''" by auto
    with True show ?thesis by (simp add: show_nat.simps [of n])
  next
    case False
    then have "n div 10 \<noteq> 0" by simp
    with False "1.IH" have "hd (show_nat (n div 10)) \<noteq> CHR ''0''" by simp
    with False show ?thesis
      by (simp add: show_nat.simps [of n] show_nat_nonempty)
  qed
qed

lemma join_concat:
  "xs \<noteq> [] \<Longrightarrow> join sep xs = concat (map (\<lambda>x. x @ sep) (butlast xs)) @ last xs"
  by (induction sep xs rule: join.induct) simp_all

lemma join_map_upt:
  assumes "0 < n"
  shows "join sep (map f [0..<n]) = concat (map (\<lambda>i. f i @ sep) [0..<n - 1]) @ f (n - 1)"
proof -
  from assms obtain m where n: "n = Suc m" by (cases n) auto
  have "join sep (map f [0..<n]) =
      concat (map (\<lambda>x. x @ sep) (butlast (map f [0..<n]))) @ last (map f [0..<n])"
    using assms by (intro join_concat) simp
  also have "butlast (map f [0..<n]) = map f [0..<n - 1]"
    by (simp add: n)
  also have "last (map f [0..<n]) = f (n - 1)"
    by (simp add: n)
  finally show ?thesis by (simp add: comp_def)
qed

text \<open>
  C7. \<^verbatim>\<open>summary()\<close> returns the steps of the task in their order, one line for each: the
  line of the step at position \<open>i\<close> (from 0) is the number \<open>i + 1\<close>, then \<^verbatim>\<open>'. '\<close>, then the
  step; every line but the last is followed by a newline character, and nothing else is
  in the result (it is empty when there are no steps). The number is written in decimal:
  \<open>show_nat k\<close> is a string of digits, not empty, with no leading zero for a positive \<open>k\<close>,
  that denotes \<open>k\<close>. The call leaves the state, and so the steps, unchanged. The order of
  the steps is the order in which they were recorded: \<^verbatim>\<open>recordStep\<close> appends at the end.
\<close>

theorem summary_numbered_lines:
  "fst (summary this w) =
     (if steps (heap w this) = [] then []
      else concat (map (\<lambda>i. show_nat (i + 1) @ ''. '' @ steps (heap w this) ! i @ [CHR 0x0A])
                     [0..<length (steps (heap w this)) - 1]) @
           show_nat (length (steps (heap w this))) @ ''. '' @ last (steps (heap w this))) \<and>
   show_nat k \<noteq> [] \<and> set (show_nat k) \<subseteq> set ''0123456789'' \<and>
   decimal_value (show_nat k) = k \<and> (k \<noteq> 0 \<longrightarrow> hd (show_nat k) \<noteq> CHR ''0'') \<and>
   snd (summary this w) = w \<and>
   steps (heap (fold (\<lambda>m. recordStep m this) ms w) this) = steps (heap w this) @ ms"
proof -
  let ?s = "steps (heap w this)"
  have "fst (summary this w) =
     (if ?s = [] then []
      else concat (map (\<lambda>i. show_nat (i + 1) @ ''. '' @ ?s ! i @ [CHR 0x0A])
                     [0..<length ?s - 1]) @
           show_nat (length ?s) @ ''. '' @ last ?s)"
  proof (cases "?s = []")
    case True
    then show ?thesis by (simp add: summary_def)
  next
    case False
    then have n: "0 < length ?s" by simp
    have "fst (summary this w) =
        join [CHR 0x0A] (map (\<lambda>i. show_nat (i + 1) @ ''. '' @ ?s ! i) [0..<length ?s])"
      by (simp add: summary_def enumerate_map_nth)
    also have "\<dots> = concat (map (\<lambda>i. (show_nat (i + 1) @ ''. '' @ ?s ! i) @ [CHR 0x0A])
                     [0..<length ?s - 1]) @
           (show_nat (length ?s - 1 + 1) @ ''. '' @ ?s ! (length ?s - 1))"
      by (rule join_map_upt [OF n])
    finally show ?thesis using False n by (simp add: last_conv_nth)
  qed
  moreover have "snd (summary this w) = w"
    by (simp add: summary_def)
  ultimately show ?thesis
    using show_nat_nonempty [of k] show_nat_digits [of k] show_nat_value [of k]
      show_nat_no_leading_zero [of k] fold_recordStep [of this ms w]
    by blast
qed

theorem summary_numbered_lines_witness:
  "fst (summary 0 world1_steps) =
     ''1. a\<newline>2. b\<newline>3. c\<newline>4. d\<newline>5. e\<newline>6. f\<newline>7. g\<newline>8. h\<newline>9. i\<newline>10. j\<newline>11. k'' \<and>
   decimal_value (show_nat 11) = 11 \<and> hd (show_nat 11) \<noteq> CHR ''0'' \<and>
   snd (summary 0 world1_steps) = world1_steps"
proof -
  have s: "steps (heap world1_steps 0) =
      [''a'', ''b'', ''c'', ''d'', ''e'', ''f'', ''g'', ''h'', ''i'', ''j'', ''k'']"
    unfolding world1_steps_def fold_recordStep by (simp add: world1_eq blank_def)
  have u: "[0..<10] = [0, 1, 2, 3, 4, 5, 6, 7, 8, 9 :: nat]"
    by (simp add: upt_rec)
  from summary_numbered_lines [of 0 world1_steps 11 "[]"] show ?thesis
    by (simp add: s u show_nat.simps digit_def)
qed

text \<open>
  C8. \<^verbatim>\<open>watch\<close> changes only the fields \<^verbatim>\<open>watchers\<close> and \<^verbatim>\<open>category\<close> of its task,
  \<^verbatim>\<open>ignore\<close> only \<^verbatim>\<open>watchers\<close> (one pattern is appended), \<^verbatim>\<open>recordStep\<close> only \<^verbatim>\<open>steps\<close>
  (one entry is appended); nothing else of the state changes. In particular the fields
  \<^verbatim>\<open>name\<close>, \<^verbatim>\<open>isComplete\<close>, \<^verbatim>\<open>paths\<close>, \<^verbatim>\<open>src\<close>, \<^verbatim>\<open>output\<close> and \<^verbatim>\<open>definition\<close> of every task
  \<open>t\<close> are the same after each of the three calls.
\<close>

theorem watch_ignore_recordStep_frame:
  "snd (watch regex cat this w) =
     w\<lparr>heap := (heap w)(this := (heap w this)
          \<lparr>watchers := (if truthy regex then array_concat (watchers (heap w this)) regex
                        else watchers (heap w this)),
           category := (if truthy cat then cat else JStr ''default'')\<rparr>)\<rparr> \<and>
   snd (ignore p this w) =
     w\<lparr>heap := (heap w)(this := (heap w this)
          \<lparr>watchers := watchers (heap w this) @
                          [JStr (replace ''././'' ''./'' (''!./'' @ p))]\<rparr>)\<rparr> \<and>
   recordStep message this w =
     w\<lparr>heap := (heap w)(this := (heap w this)\<lparr>steps := steps (heap w this) @ [message]\<rparr>)\<rparr> \<and>
   same_fixed_fields (heap (snd (watch regex cat this w)) t) (heap w t) \<and>
   same_fixed_fields (heap (snd (ignore p this w)) t) (heap w t) \<and>
   same_fixed_fields (heap (recordStep message this w) t) (heap w t)"
  by (simp add: watch_def ignore_def recordStep_def update_def Let_def js_or_def
      same_fixed_fields_def del: replace.simps)

theorem watch_ignore_recordStep_frame_witness:
  "same_fixed_fields (heap (snd (watch (JStr ''**/*.scss'') JNull 0 world1)) 0) (heap world1 0) \<and>
   same_fixed_fields (heap (snd (ignore ''vendor'' 0 world1)) 0) (heap world1 0) \<and>
   same_fixed_fields (heap (recordStep ''Concatenating Files'' 0 world1) 0) (heap world1 0) \<and>
   watchers (heap (snd (watch (JStr ''**/*.scss'') JNull 0 world1)) 0) = [JStr ''**/*.scss''] \<and>
   watchers (heap (snd (ignore ''vendor'' 0 world1)) 0) = [JStr ''!./vendor''] \<and>
   steps (heap (recordStep ''Concatenating Files'' 0 world1) 0) = [''Concatenating Files'']"
proof -
  have e: "watchers (heap (snd (watch (JStr ''**/*.scss'') JNull 0 world1)) 0) = [JStr ''**/*.scss'']"
    "watchers (heap (snd (ignore ''vendor'' 0 world1)) 0) = [JStr ''!./vendor'']"
    "steps (heap (recordStep ''Concatenating Files'' 0 world1) 0) = [''Concatenating Files'']"
    by (simp_all add: watch_def ignore_def recordStep_def heap_update world1_eq blank_def)
  from watch_ignore_recordStep_frame
    [of "JStr ''**/*.scss''" JNull 0 world1 "''vendor''" "''Concatenating Files''" 0] e
  show ?thesis by blast
qed


section \<open>Registration with gulp\<close>







section \<open>Excluding a path from the watcher\<close>

lemma replace_no_occurrence: "\<not> occurs pat s \<Longrightarrow> replace pat rep s = s"
  by (induction s) auto

lemma replace_bang:
  "replace ''././'' ''./'' (''!./'' @ p) = CHR ''!'' # replace ''././'' ''./'' (''./'' @ p)"
  by simp

lemma replace_leading:
  assumes "take 2 p = ''./''"
  shows "replace ''././'' ''./'' (''!./'' @ p) = ''!'' @ p"
proof -
  from assms have "p = ''./'' @ drop 2 p"
    by (metis append_take_drop_id)
  then obtain r where p: "p = ''./'' @ r" ..
  show ?thesis unfolding p by simp
qed

lemma replace_none:
  assumes "take 2 p \<noteq> ''./''" "\<not> occurs ''././'' p"
  shows "replace ''././'' ''./'' (''!./'' @ p) = ''!./'' @ p"
proof -
  have "\<not> occurs ''././'' (''!./'' @ p)"
  proof (cases p)
    case Nil then show ?thesis by simp
  next
    case (Cons a q)
    show ?thesis
    proof (cases q)
      case Nil with Cons show ?thesis by simp
    next
      case (Cons b r)
      with \<open>p = a # q\<close> assms show ?thesis by auto
    qed
  qed
  then show ?thesis by (rule replace_no_occurrence)
qed

text \<open>
  C10, as the code has it. \<^verbatim>\<open>ignore(p)\<close> returns the task itself and appends to its
  watchers exactly one pattern: \<^verbatim>\<open>'!./' + p\<close> with its first occurrence of \<^verbatim>\<open>'././'\<close>,
  wherever that is, replaced by \<^verbatim>\<open>'./'\<close>. The pattern starts with \<^verbatim>\<open>'!'\<close>, and
  \<^verbatim>\<open>hasWatchers()\<close> is true afterwards. When \<open>p\<close> starts with \<^verbatim>\<open>'./'\<close> or has no occurrence
  of \<^verbatim>\<open>'././'\<close>, the pattern is the one of the specification: \<^verbatim>\<open>'!./' + p\<close> with a single
  leading \<^verbatim>\<open>'././'\<close> collapsed.
\<close>

theorem ignore_appends_exclusion_pattern:
  "fst (ignore p this w) = this \<and>
   watchers (heap (snd (ignore p this w)) this) =
     watchers (heap w this) @ [JStr (replace ''././'' ''./'' (''!./'' @ p))] \<and>
   take 1 (replace ''././'' ''./'' (''!./'' @ p)) = ''!'' \<and>
   fst (hasWatchers this (snd (ignore p this w))) \<and>
   (take 2 p = ''./'' \<or> \<not> occurs ''././'' p \<longrightarrow>
      replace ''././'' ''./'' (''!./'' @ p) = exclusion_pattern_spec p)"
proof -
  have "take 2 p = ''./'' \<or> \<not> occurs ''././'' p \<longrightarrow>
      replace ''././'' ''./'' (''!./'' @ p) = exclusion_pattern_spec p"
  proof (cases "take 2 p = ''./''")
    case True
    then have "''!'' @ p = ''!./'' @ drop 2 p"
      by (metis append_Cons append_Nil append_take_drop_id)
    with True show ?thesis
      by (simp only: replace_leading exclusion_pattern_spec_def if_True simp_thms)
  next
    case False
    then show ?thesis
      using replace_none [of p] by (simp add: exclusion_pattern_spec_def del: replace.simps)
  qed
  moreover have "take 1 (replace ''././'' ''./'' (''!./'' @ p)) = ''!''"
    by (simp only: replace_bang) simp
  ultimately show ?thesis
    by (simp add: ignore_def hasWatchers_def heap_update)
qed

theorem ignore_appends_exclusion_pattern_witness:
  "watchers (heap (snd (ignore ''./foo'' 0 world1)) 0) = [JStr ''!./foo''] \<and>
   watchers (heap (snd (ignore ''foo'' 0 world1)) 0) = [JStr ''!./foo''] \<and>
   replace ''././'' ''./'' (''!./'' @ ''./foo'') = exclusion_pattern_spec ''./foo'' \<and>
   replace ''././'' ''./'' (''!./'' @ ''foo'') = exclusion_pattern_spec ''foo'' \<and>
   fst (hasWatchers 0 (snd (ignore ''foo'' 0 world1)))"
proof -
  have e: "take 2 ''./foo'' = ''./''" "\<not> occurs ''././'' ''foo''"
    "watchers (heap world1 0) = []"
    "exclusion_pattern_spec ''./foo'' = ''!./foo''" "exclusion_pattern_spec ''foo'' = ''!./foo''"
    by (simp_all add: world1_eq blank_def exclusion_pattern_spec_def)
  from ignore_appends_exclusion_pattern [of "''./foo''" 0 world1]
    ignore_appends_exclusion_pattern [of "''foo''" 0 world1]
  show ?thesis
    by (simp add: e del: replace.simps)
qed

text \<open>
  The claim C10 as it was stated, that the pattern is \<^verbatim>\<open>'!./' + p\<close> with only a leading
  \<^verbatim>\<open>'././'\<close> collapsed, fails for a path with \<^verbatim>\<open>'././'\<close> further inside: for
  \<^verbatim>\<open>ignore('a/././b')\<close> the code appends \<^verbatim>\<open>'!./a/./b'\<close>, the specification's pattern is
  \<^verbatim>\<open>'!./a/././b'\<close>.
\<close>

theorem ignore_replaces_inner_occurrence:
  "watchers (heap (snd (ignore ''a/././b'' 0 world1)) 0) = [JStr ''!./a/./b''] \<and>
   exclusion_pattern_spec ''a/././b'' = ''!./a/././b''"
  by (simp add: ignore_def heap_update world1_eq blank_def exclusion_pattern_spec_def)

end
